theory Spec2Isabelle
  imports Main
begin

section \<open>Characters, C strings and the library calls the program relies on\<close>

text \<open>
  A C string is modelled by the list of its characters before the terminating NUL.
  \<open>isdigit\<close> and \<open>isspace\<close> are the predicates of \<^verbatim>\<open>ctype.h\<close> in the C locale.
\<close>

definition isdigit :: "char \<Rightarrow> bool" where
  "isdigit c = (c \<in> set ''0123456789'')"

definition isspace :: "char \<Rightarrow> bool" where
  "isspace c = (c \<in> set [CHR '' '', CHR 0x09, CHR ''\<newline>'', CHR 0x0B, CHR 0x0C, CHR 0x0D])"

text \<open>
  \<open>strcmp\<close> compares byte by byte, as unsigned characters. The C library only fixes
  the sign of the result; the model returns \<open>-1\<close>, \<open>0\<close> or \<open>1\<close>, and the program
  only tests the result against zero.
\<close>

fun strcmp :: "string \<Rightarrow> string \<Rightarrow> int" where
  "strcmp [] [] = 0"
| "strcmp [] (y # ys) = - 1"
| "strcmp (x # xs) [] = 1"
| "strcmp (x # xs) (y # ys) =
     (if x = y then strcmp xs ys
      else if (of_char x :: nat) < of_char y then - 1 else 1)"

text \<open>What a character array holds, seen as a C string: the bytes before the first NUL.\<close>

definition cstr :: "string \<Rightarrow> string" where
  "cstr s = takeWhile (\<lambda>c. c \<noteq> CHR 0x00) s"

section \<open>The person structure\<close>

text \<open>
  \<^verbatim>\<open>char genes[5][22]\<close> is an array of exactly five strings; \<open>gene\<close> reads and
  \<open>set_gene\<close> writes the entry at an index in \<open>0..4\<close>. The field \<^verbatim>\<open>id\<close> is called
  \<open>ident\<close>, since \<open>id\<close> is the identity function of HOL.
\<close>

datatype genes5 = Genes5 string string string string string

fun gene :: "genes5 \<Rightarrow> nat \<Rightarrow> string" where
  "gene (Genes5 g0 g1 g2 g3 g4) i =
     (if i = 0 then g0 else if i = 1 then g1 else if i = 2 then g2
      else if i = 3 then g3 else g4)"

fun set_gene :: "nat \<Rightarrow> string \<Rightarrow> genes5 \<Rightarrow> genes5" where
  "set_gene i v (Genes5 g0 g1 g2 g3 g4) =
     (if i = 0 then Genes5 v g1 g2 g3 g4 else if i = 1 then Genes5 g0 v g2 g3 g4
      else if i = 2 then Genes5 g0 g1 v g3 g4 else if i = 3 then Genes5 g0 g1 g2 v g4
      else Genes5 g0 g1 g2 g3 v)"

record person =
  name :: string
  ident :: string
  genes :: genes5

text \<open>The result of \<^verbatim>\<open>memset(&p, 0, sizeof(person))\<close>: every field is the empty string.\<close>

definition zero_person :: person where
  "zero_person = \<lparr>name = [], ident = [], genes = Genes5 [] [] [] [] []\<rparr>"

section \<open>Helper functions of the program\<close>

definition comparePersons :: "person \<Rightarrow> person \<Rightarrow> int" where
  "comparePersons a b = strcmp (name a) (name b)"

text \<open>The loop \<^verbatim>\<open>for (i = 0; i < 5; i++)\<close> with its counter \<open>matchCount\<close>.\<close>

definition countGeneMatches :: "person \<Rightarrow> person \<Rightarrow> int" where
  "countGeneMatches donor patient =
     fold (\<lambda>i matchCount.
             if strcmp (gene (genes donor) i) (gene (genes patient) i) = 0
             then matchCount + 1 else matchCount)
          [0..<5] 0"

text \<open>
  \<open>cleanName\<close>: the scan keeps the index of the last non-space character seen before
  the first digit (\<open>-1\<close> when there is none); the string is then cut after that index.
\<close>

fun cleanName_scan :: "string \<Rightarrow> nat \<Rightarrow> int \<Rightarrow> int" where
  "cleanName_scan [] i lastCharIndex = lastCharIndex"
| "cleanName_scan (c # cs) i lastCharIndex =
     (if isdigit c then lastCharIndex
      else cleanName_scan cs (i + 1) (if \<not> isspace c then int i else lastCharIndex))"

definition cleanName :: "string \<Rightarrow> string" where
  "cleanName nm = take (nat (cleanName_scan nm 0 (- 1) + 1)) nm"

text \<open>
  \<open>isDuplicate\<close> scans the first \<open>numProcessed\<close> entries of \<open>processedIDs\<close>; the
  model keeps exactly those entries in a list, so \<open>numProcessed\<close> is its length.
\<close>

fun isDuplicate :: "string \<Rightarrow> string list \<Rightarrow> int" where
  "isDuplicate i [] = 0"
| "isDuplicate i (p # ps) = (if strcmp i p = 0 then 1 else isDuplicate i ps)"

section \<open>Reading one record with fscanf\<close>

text \<open>
  An open input file is the list of characters not yet read. The two conversions the
  program uses are, following the C standard (7.21.6.2):
  \<^item> \<^verbatim>\<open>%30[^0-9]\<close>: white space is \<^emph>\<open>not\<close> skipped; the longest run of at most 30
    characters that are not digits is taken; an empty run is a failure;
  \<^item> \<^verbatim>\<open>%9s\<close>, \<^verbatim>\<open>%21s\<close>: white space is skipped, then the longest run of at most
    \<open>w\<close> characters that are not white space is taken; reaching the end of the input
    first is a failure.
  A white-space directive between two \<^verbatim>\<open>%s\<close> conversions skips what the conversion
  would skip anyway, so the formats \<^verbatim>\<open>"%30[^0-9]%9s %21s ..."\<close> and
  \<^verbatim>\<open>"%30[^0-9] %9s %21s ..."\<close> read the same.
\<close>

definition scan_nondigits :: "nat \<Rightarrow> string \<Rightarrow> (string \<times> string) option" where
  "scan_nondigits w s =
     (let m = takeWhile (\<lambda>c. \<not> isdigit c) (take w s)
      in if m = [] then None else Some (m, drop (length m) s))"

definition scan_s :: "nat \<Rightarrow> string \<Rightarrow> (string \<times> string) option" where
  "scan_s w s =
     (let s' = dropWhile isspace s;
          m = takeWhile (\<lambda>c. \<not> isspace c) (take w s')
      in if s' = [] then None else Some (m, drop (length m) s'))"

definition EOF :: int where
  "EOF = - 1"

text \<open>
  \<open>fscanf_person s p\<close> is the call
  \<^verbatim>\<open>fscanf(f, "%30[^0-9] %9s %21s %21s %21s %21s %21s", p.name, p.id, p.genes[0..4])\<close>
  on a file with unread input \<open>s\<close>: the value returned, the structure after the
  assignments made (the fields after a failing conversion keep what they held), and
  the input left unread.
\<close>

definition fscanf_person :: "string \<Rightarrow> person \<Rightarrow> int \<times> person \<times> string" where
  "fscanf_person s p =
     (case scan_nondigits 30 s of
        None \<Rightarrow> (if s = [] then EOF else 0, p, s)
      | Some (f1, s1) \<Rightarrow>
     let p1 = p\<lparr>name := cstr f1\<rparr> in
     (case scan_s 9 s1 of
        None \<Rightarrow> (1, p1, [])
      | Some (f2, s2) \<Rightarrow>
     let p2 = p1\<lparr>ident := cstr f2\<rparr> in
     (case scan_s 21 s2 of
        None \<Rightarrow> (2, p2, [])
      | Some (f3, s3) \<Rightarrow>
     let p3 = p2\<lparr>genes := set_gene 0 (cstr f3) (genes p2)\<rparr> in
     (case scan_s 21 s3 of
        None \<Rightarrow> (3, p3, [])
      | Some (f4, s4) \<Rightarrow>
     let p4 = p3\<lparr>genes := set_gene 1 (cstr f4) (genes p3)\<rparr> in
     (case scan_s 21 s4 of
        None \<Rightarrow> (4, p4, [])
      | Some (f5, s5) \<Rightarrow>
     let p5 = p4\<lparr>genes := set_gene 2 (cstr f5) (genes p4)\<rparr> in
     (case scan_s 21 s5 of
        None \<Rightarrow> (5, p5, [])
      | Some (f6, s6) \<Rightarrow>
     let p6 = p5\<lparr>genes := set_gene 3 (cstr f6) (genes p5)\<rparr> in
     (case scan_s 21 s6 of
        None \<Rightarrow> (6, p6, [])
      | Some (f7, s7) \<Rightarrow>
     (7, p6\<lparr>genes := set_gene 4 (cstr f7) (genes p6)\<rparr>, s7))))))))"

section \<open>Errors and the output file\<close>

text \<open>
  The ways a run can leave the normal path: \<^verbatim>\<open>fopen\<close> fails and the program calls
  \<^verbatim>\<open>exit(1)\<close>, or a store goes past the end of a fixed-size array.
\<close>

datatype error =
    CannotCreateFile
  | ProcessedIDsOverflow
  | CannotOpenDatabase
  | DonorsOverflow

text \<open>
  The output file is the sequence of \<^verbatim>\<open>fprintf\<close> calls made on it: the line break
  \<^verbatim>\<open>"\n"\<close>, a record with \<^verbatim>\<open>"%-30s%-9s %-21s ..."\<close> (no space between name and id)
  or a record with \<^verbatim>\<open>"%-30s %-9s %-21s ..."\<close>. \<open>file_text\<close> gives the characters
  written; \<^verbatim>\<open>%-Ns\<close> pads on the right to at least \<open>N\<close> columns and never truncates.
\<close>

datatype fprintf_call =
    Put_newline
  | Put_joined person
  | Put_spaced person

definition pad :: "nat \<Rightarrow> string \<Rightarrow> string" where
  "pad w s = s @ replicate (w - length s) (CHR '' '')"

definition gene_columns :: "person \<Rightarrow> string" where
  "gene_columns p =
     pad 21 (gene (genes p) 0) @ '' '' @ pad 21 (gene (genes p) 1) @ '' '' @
     pad 21 (gene (genes p) 2) @ '' '' @ pad 21 (gene (genes p) 3) @ '' '' @
     pad 21 (gene (genes p) 4)"

fun call_text :: "fprintf_call \<Rightarrow> string" where
  "call_text Put_newline = ''\<newline>''"
| "call_text (Put_joined p) = pad 30 (name p) @ pad 9 (ident p) @ '' '' @ gene_columns p"
| "call_text (Put_spaced p) =
     pad 30 (name p) @ '' '' @ pad 9 (ident p) @ '' '' @ gene_columns p"

definition file_text :: "fprintf_call list \<Rightarrow> string" where
  "file_text calls = concat (map call_text calls)"

fun records_written :: "fprintf_call list \<Rightarrow> person list" where
  "records_written [] = []"
| "records_written (Put_newline # cs) = records_written cs"
| "records_written (Put_joined p # cs) = p # records_written cs"
| "records_written (Put_spaced p # cs) = p # records_written cs"

section \<open>createDatabase\<close>

text \<open>
  \<^verbatim>\<open>units[i]\<close> and \<^verbatim>\<open>currentPersons[i]\<close> are parallel arrays of \<open>numberOfUnits\<close>
  entries; the model keeps them as one list of pairs: the unread input of file \<open>i\<close>
  and the record held for it.
\<close>

record slot =
  unit_input :: string
  currentPerson :: person

text \<open>
  The local variables of \<open>createDatabase\<close>. \<open>smallestIndex = -1\<close> and
  \<open>lastFileIndex = -1\<close> are \<open>None\<close>. \<open>selected\<close> is a history variable, which the
  program does not have: the index and the record chosen by each iteration so far.
\<close>

record merge_state =
  slots :: "slot list"
  activeFiles :: int
  processedIDs :: "string list"
  lastFileIndex :: "nat option"
  outFile :: "fprintf_call list"
  selected :: "(nat \<times> person) list"

text \<open>The inner \<^verbatim>\<open>for\<close> loop: the first slot with the smallest non-empty name.\<close>

definition smallest_step :: "person list \<Rightarrow> nat \<Rightarrow> nat option \<Rightarrow> nat option" where
  "smallest_step cp i smallestIndex =
     (if name (cp ! i) \<noteq> [] \<and>
         (case smallestIndex of
            None \<Rightarrow> True
          | Some j \<Rightarrow> comparePersons (cp ! i) (cp ! j) < 0)
      then Some i else smallestIndex)"

definition find_smallest :: "person list \<Rightarrow> nat option" where
  "find_smallest cp = fold (smallest_step cp) [0..<length cp] None"

definition memset_zero :: "person \<Rightarrow> person" where
  "memset_zero p = zero_person"

text \<open>
  One iteration of the \<^verbatim>\<open>while\<close> loop once \<open>smallestIndex\<close> is known. \<open>cap\<close> is the
  number of entries of \<open>processedIDs\<close>; \<^verbatim>\<open>strcpy(processedIDs[numProcessed], ...)\<close>
  with \<open>numProcessed\<close> not below it writes past the array.
  After the next \<^verbatim>\<open>fscanf\<close>, \<open>cleanName\<close> is called in the branch where the call did
  \<^emph>\<open>not\<close> return 7, just before the slot is cleared; a record read with success is kept
  as it was scanned.
\<close>

definition merge_body :: "nat \<Rightarrow> merge_state \<Rightarrow> nat \<Rightarrow> error + merge_state" where
  "merge_body cap st smallestIndex =
     (let cur = currentPerson (slots st ! smallestIndex);
          dup = (isDuplicate (ident cur) (processedIDs st) \<noteq> 0);
          newLine = (lastFileIndex st \<noteq> Some smallestIndex \<and> lastFileIndex st \<noteq> None);
          out1 = (if newLine \<and> \<not> dup then outFile st @ [Put_newline] else outFile st);
          out2 = (if dup then out1
                  else if newLine then out1 @ [Put_joined cur]
                  else out1 @ [Put_spaced cur])
      in if \<not> dup \<and> cap \<le> length (processedIDs st) then Inl ProcessedIDsOverflow
         else
           (case fscanf_person (unit_input (slots st ! smallestIndex)) cur of
              (n, p, rest) \<Rightarrow>
                Inr \<lparr>slots = (slots st)[smallestIndex :=
                        \<lparr>unit_input = rest,
                         currentPerson =
                           (if n \<noteq> 7 then memset_zero (p\<lparr>name := cleanName (name p)\<rparr>)
                            else p)\<rparr>],
                     activeFiles = (if n \<noteq> 7 then activeFiles st - 1 else activeFiles st),
                     processedIDs =
                       (if dup then processedIDs st else processedIDs st @ [ident cur]),
                     lastFileIndex = Some smallestIndex,
                     outFile = out2,
                     selected = selected st @ [(smallestIndex, cur)]\<rparr>))"

text \<open>What is left to read and to choose: the termination measure of the loop.\<close>

definition slot_weight :: "slot \<Rightarrow> nat" where
  "slot_weight sl = length (unit_input sl) + (if name (currentPerson sl) \<noteq> [] then 1 else 0)"

definition merge_measure :: "merge_state \<Rightarrow> nat" where
  "merge_measure st = sum_list (map slot_weight (slots st))"

lemma scan_nondigits_shorter:
  "scan_nondigits w s = Some (m, r) \<Longrightarrow> length r < length s"
  by (cases s) (auto simp: scan_nondigits_def Let_def split: if_splits)

lemma scan_s_not_longer:
  "scan_s w s = Some (m, r) \<Longrightarrow> length r \<le> length s"
proof -
  have "length (dropWhile isspace s) \<le> length s"
    by (rule length_dropWhile_le)
  moreover assume "scan_s w s = Some (m, r)"
  ultimately show ?thesis
    by (auto simp: scan_s_def Let_def split: if_splits)
qed

lemma fscanf_person_not_longer:
  assumes "fscanf_person s p = (n, p', rest)"
  shows "length rest \<le> length s"
  using assms
  by (auto simp: fscanf_person_def Let_def split: option.splits if_splits
           dest!: scan_nondigits_shorter scan_s_not_longer)

lemma fscanf_person_shorter:
  assumes "fscanf_person s p = (7, p', rest)"
  shows "length rest < length s"
  using assms
  by (auto simp: fscanf_person_def Let_def EOF_def split: option.splits if_splits
           dest!: scan_nondigits_shorter scan_s_not_longer)

lemma fold_smallest_step:
  "fold (smallest_step cp) [0..<n] None = Some k \<Longrightarrow> k < n \<and> name (cp ! k) \<noteq> []"
proof (induction n arbitrary: k)
  case 0
  then show ?case by simp
next
  case (Suc n)
  then show ?case
    by (auto simp: smallest_step_def less_Suc_eq split: if_splits option.splits)
qed

lemma find_smallest_valid:
  "find_smallest cp = Some k \<Longrightarrow> k < length cp \<and> name (cp ! k) \<noteq> []"
  unfolding find_smallest_def by (rule fold_smallest_step)

lemma sum_list_update_less:
  fixes xs :: "nat list"
  assumes "k < length xs" "v < xs ! k"
  shows "sum_list (xs[k := v]) < sum_list xs"
  using assms
proof (induction xs arbitrary: k)
  case Nil
  then show ?case by simp
next
  case (Cons x xs)
  then show ?case by (cases k) auto
qed

lemma merge_body_decreases:
  assumes "merge_body cap st k = Inr st'"
    and "k < length (slots st)"
    and "name (currentPerson (slots st ! k)) \<noteq> []"
  shows "merge_measure st' < merge_measure st"
proof -
  obtain n p rest where f:
    "fscanf_person (unit_input (slots st ! k)) (currentPerson (slots st ! k)) = (n, p, rest)"
    by (cases "fscanf_person (unit_input (slots st ! k)) (currentPerson (slots st ! k))")
  define sl where "sl = \<lparr>unit_input = rest,
      currentPerson = (if n \<noteq> 7 then memset_zero (p\<lparr>name := cleanName (name p)\<rparr>) else p)\<rparr>"
  from assms(1) f have st': "slots st' = (slots st)[k := sl]"
    by (auto simp: merge_body_def Let_def sl_def split: if_splits)
  have "slot_weight sl < slot_weight (slots st ! k)"
  proof (cases "n = 7")
    case True
    with f have "length rest < length (unit_input (slots st ! k))"
      by (auto dest: fscanf_person_shorter)
    with assms(3) show ?thesis by (simp add: slot_weight_def sl_def)
  next
    case False
    from f have "length rest \<le> length (unit_input (slots st ! k))"
      by (rule fscanf_person_not_longer)
    with assms(3) False show ?thesis
      by (simp add: slot_weight_def sl_def memset_zero_def zero_person_def)
  qed
  with assms(2) have "sum_list ((map slot_weight (slots st))[k := slot_weight sl])
      < sum_list (map slot_weight (slots st))"
    by (intro sum_list_update_less) auto
  then show ?thesis
    by (simp add: merge_measure_def st' map_update)
qed

text \<open>The \<^verbatim>\<open>while (activeFiles > 0)\<close> loop, with its \<^verbatim>\<open>break\<close>.\<close>

function merge_loop :: "nat \<Rightarrow> merge_state \<Rightarrow> error + merge_state" where
  "merge_loop cap st =
     (if activeFiles st > 0 then
        (case find_smallest (map currentPerson (slots st)) of
           None \<Rightarrow> Inr st
         | Some smallestIndex \<Rightarrow>
             (case merge_body cap st smallestIndex of
                Inl e \<Rightarrow> Inl e
              | Inr st' \<Rightarrow> merge_loop cap st'))
      else Inr st)"
  by pat_completeness auto
termination
proof (relation "measure (\<lambda>(cap, st). merge_measure st)")
  show "wf (measure (\<lambda>(cap, st). merge_measure st))" by simp
next
  fix cap st k st'
  assume found: "find_smallest (map currentPerson (slots st)) = Some k"
    and body: "merge_body cap st k = Inr st'"
  from found have "k < length (slots st)" "name (currentPerson (slots st ! k)) \<noteq> []"
    using find_smallest_valid [of "map currentPerson (slots st)" k] by auto
  with body have "merge_measure st' < merge_measure st"
    by (rule merge_body_decreases)
  then show "((cap, st'), (cap, st)) \<in> measure (\<lambda>(cap, st). merge_measure st)"
    by simp
qed

declare merge_loop.simps [simp del]

text \<open>
  The first loop of \<open>createDatabase\<close>: one \<^verbatim>\<open>fscanf\<close> per file. \<open>garbage\<close> is what
  the uninitialised array entry held. Only a call returning 7 is followed by
  \<open>cleanName\<close> and counted in \<open>activeFiles\<close>; after any other call the entry keeps the
  fields that were assigned and, for the rest, what it held before.
\<close>

definition prime_slot :: "string \<Rightarrow> person \<Rightarrow> slot \<times> bool" where
  "prime_slot s garbage =
     (case fscanf_person s garbage of
        (n, p, rest) \<Rightarrow>
          if n = 7
          then (\<lparr>unit_input = rest, currentPerson = p\<lparr>name := cleanName (name p)\<rparr>\<rparr>, True)
          else (\<lparr>unit_input = rest, currentPerson = p\<rparr>, False))"

definition MAX_PERSONS :: nat where
  "MAX_PERSONS = 1000"

definition MAX_UNITS :: nat where
  "MAX_UNITS = 100"

text \<open>
  \<open>createDatabase_cap cap units creatable uninit\<close>: \<open>units\<close> is the content of the
  open input files (\<open>numberOfUnits\<close> is their number), \<open>creatable\<close> tells whether
  \<^verbatim>\<open>fopen(filename, "w")\<close> succeeds, \<open>uninit i\<close> is the indeterminate initial content
  of \<^verbatim>\<open>currentPersons[i]\<close> (taken to hold three terminated strings), and \<open>cap\<close> is
  the size of \<open>processedIDs\<close>, which the program fixes to \<open>MAX_UNITS\<close>. The result is
  the final state, whose \<open>outFile\<close> is the file written. The functions \<open>main\<close>,
  \<open>printPotentialDonorsList\<close> and \<open>countMismatches\<close> (which nothing calls) are not
  modelled.
\<close>

definition createDatabase_cap ::
  "nat \<Rightarrow> string list \<Rightarrow> bool \<Rightarrow> (nat \<Rightarrow> person) \<Rightarrow> error + merge_state" where
  "createDatabase_cap cap units creatable uninit =
     (if \<not> creatable then Inl CannotCreateFile
      else
        let primed = map (\<lambda>i. prime_slot (units ! i) (uninit i)) [0..<length units]
        in merge_loop cap
             \<lparr>slots = map fst primed,
              activeFiles = int (length (filter snd primed)),
              processedIDs = [],
              lastFileIndex = None,
              outFile = [],
              selected = []\<rparr>)"

definition createDatabase ::
  "string list \<Rightarrow> bool \<Rightarrow> (nat \<Rightarrow> person) \<Rightarrow> error + merge_state" where
  "createDatabase = createDatabase_cap MAX_UNITS"

section \<open>getPotentialDonors\<close>

text \<open>
  The \<^verbatim>\<open>while (fscanf(...) == 7)\<close> loop. \<open>donors\<close> holds the \<open>donorCount\<close> entries
  stored so far in the array of \<open>MAX_PERSONS\<close> entries obtained from \<^verbatim>\<open>malloc\<close>
  (assumed to succeed); \<^verbatim>\<open>donors[donorCount++] = current\<close> is done without a check.
\<close>

function donors_loop ::
  "string \<Rightarrow> person \<Rightarrow> person \<Rightarrow> int \<Rightarrow> person list \<Rightarrow> error + person list" where
  "donors_loop dbFile current patient min_match donors =
     (case fscanf_person dbFile current of
        (n, cur, rest) \<Rightarrow>
          if n = 7 then
            (let matches = countGeneMatches cur patient
             in if matches \<ge> min_match then
                  (if length donors < MAX_PERSONS
                   then donors_loop rest cur patient min_match (donors @ [cur])
                   else Inl DonorsOverflow)
                else donors_loop rest cur patient min_match donors)
          else Inr donors)"
  by pat_completeness auto
termination
  by (relation "measure (\<lambda>(dbFile, current, patient, min_match, donors). length dbFile)")
     (auto dest: fscanf_person_shorter [OF sym])

declare donors_loop.simps [simp del]

text \<open>
  \<open>getPotentialDonors database patient min_match current\<close>: \<open>database\<close> is the content
  of the named file, \<open>None\<close> when it cannot be opened; \<open>current\<close> is the indeterminate
  initial content of the local variable of that name. The result is the array returned
  (its first \<open>donorCount\<close> entries) and the value stored in \<^verbatim>\<open>*size\<close>.
\<close>

definition getPotentialDonors ::
  "string option \<Rightarrow> person \<Rightarrow> int \<Rightarrow> person \<Rightarrow> error + (person list \<times> int)" where
  "getPotentialDonors database patient min_match current =
     (case database of
        None \<Rightarrow> Inl CannotOpenDatabase
      | Some dbFile \<Rightarrow>
          (case donors_loop dbFile current patient min_match [] of
             Inl e \<Rightarrow> Inl e
           | Inr donors \<Rightarrow> Inr (donors, int (length donors))))"

section \<open>Reading results\<close>

text \<open>
  \<open>zeroed\<close> is one possible content of the uninitialised array: all bytes zero.
  \<open>written r\<close> is the list of records written to the output file by a run that
  ended normally.
\<close>

definition zeroed :: "nat \<Rightarrow> person" where
  "zeroed i = zero_person"

definition written :: "error + merge_state \<Rightarrow> error + person list" where
  "written r = map_sum id (\<lambda>st. records_written (outFile st)) r"

text \<open>\<open>a\<close> is not after \<open>b\<close> in the order of \<open>strcmp\<close>.\<close>

definition name_le :: "string \<Rightarrow> string \<Rightarrow> bool" where
  "name_le a b = (strcmp a b \<le> 0)"

text \<open>\<open>calls r\<close> is the sequence of \<^verbatim>\<open>fprintf\<close> calls of a run that ended normally.\<close>

definition calls :: "error + merge_state \<Rightarrow> error + fprintf_call list" where
  "calls r = map_sum id outFile r"

text \<open>
  Of a sequence of records, the first one for each identifier; \<open>seen\<close> holds the
  identifiers met before.
\<close>

fun first_by_id :: "string list \<Rightarrow> person list \<Rightarrow> person list" where
  "first_by_id seen [] = []"
| "first_by_id seen (p # ps) =
     (if ident p \<in> set seen then first_by_id seen ps
      else p # first_by_id (ident p # seen) ps)"

text \<open>
  A run used to illustrate the theorems: two files of two records, one per line, the
  last record of each with the same identifier; and the state in which it ends.
\<close>

definition example_units :: "string list" where
  "example_units =
     [''Alice 111 X X X X X\<newline>Carol 333 Y Y Y Y Y'',
      ''Bob 222 Z Z Z Z Z\<newline>Carol 333 W W W W W'']"

definition example_final :: merge_state where
  "example_final =
     \<lparr>slots = [\<lparr>unit_input = [], currentPerson = zero_person\<rparr>,
               \<lparr>unit_input = [], currentPerson = zero_person\<rparr>],
      activeFiles = 0,
      processedIDs = [''111'', ''333'', ''222''],
      lastFileIndex = Some 1,
      outFile =
        [Put_spaced \<lparr>name = ''Alice'', ident = ''111'',
                     genes = Genes5 ''X'' ''X'' ''X'' ''X'' ''X''\<rparr>,
         Put_spaced \<lparr>name = ''\<newline>Carol '', ident = ''333'',
                     genes = Genes5 ''Y'' ''Y'' ''Y'' ''Y'' ''Y''\<rparr>,
         Put_newline,
         Put_joined \<lparr>name = ''Bob'', ident = ''222'',
                     genes = Genes5 ''Z'' ''Z'' ''Z'' ''Z'' ''Z''\<rparr>],
      selected =
        [(0, \<lparr>name = ''Alice'', ident = ''111'',
              genes = Genes5 ''X'' ''X'' ''X'' ''X'' ''X''\<rparr>),
         (0, \<lparr>name = ''\<newline>Carol '', ident = ''333'',
              genes = Genes5 ''Y'' ''Y'' ''Y'' ''Y'' ''Y''\<rparr>),
         (1, \<lparr>name = ''Bob'', ident = ''222'',
              genes = Genes5 ''Z'' ''Z'' ''Z'' ''Z'' ''Z''\<rparr>),
         (1, \<lparr>name = ''\<newline>Carol '', ident = ''333'',
              genes = Genes5 ''W'' ''W'' ''W'' ''W'' ''W''\<rparr>)]\<rparr>"

text \<open>
  What iteration \<open>k\<close> writes, told from the history \<open>sel\<close> of the records chosen:
  nothing when an earlier iteration chose a record with the same identifier; a line
  break and the record without the separating space when the iteration before chose
  another file; the record with the separating space otherwise.
\<close>

definition iteration_calls :: "(nat \<times> person) list \<Rightarrow> nat \<Rightarrow> fprintf_call list" where
  "iteration_calls sel k =
     (case sel ! k of
        (i, p) \<Rightarrow>
          if ident p \<in> set (map (\<lambda>x. ident (snd x)) (take k sel)) then []
          else if 0 < k \<and> fst (sel ! (k - 1)) \<noteq> i then [Put_newline, Put_joined p]
          else [Put_spaced p])"

text \<open>
  Two invariants of the loop. The identifiers stored are those of the records written,
  and the records written are the first of each identifier among the records chosen.
\<close>

definition unique_inv :: "merge_state \<Rightarrow> bool" where
  "unique_inv st \<longleftrightarrow>
     processedIDs st = map ident (records_written (outFile st)) \<and>
     records_written (outFile st) = first_by_id [] (map snd (selected st))"

text \<open>
  The file written is what the history of the iterations tells, the identifiers stored
  are those of the records chosen, and \<open>lastFileIndex\<close> is the file of the last one.
\<close>

definition format_inv :: "merge_state \<Rightarrow> bool" where
  "format_inv st \<longleftrightarrow>
     outFile st = concat (map (iteration_calls (selected st)) [0..<length (selected st)]) \<and>
     set (processedIDs st) = set (map (\<lambda>x. ident (snd x)) (selected st)) \<and>
     lastFileIndex st = (if selected st = [] then None else Some (fst (last (selected st))))"






text \<open>
  The records of a stream: what successive calls of \<^verbatim>\<open>fscanf\<close> yield until the first
  call that does not return 7. \<open>current\<close> is the structure the fields are read into.
\<close>

function parsed_records :: "string \<Rightarrow> person \<Rightarrow> person list" where
  "parsed_records s current =
     (case fscanf_person s current of
        (n, p, rest) \<Rightarrow> if n = 7 then p # parsed_records rest p else [])"
  by pat_completeness auto
termination
  by (relation "measure (\<lambda>(s, current). length s)")
     (auto dest: fscanf_person_shorter [OF sym])

declare parsed_records.simps [simp del]

text \<open>
  The match count as the specification words it: the number of positions \<open>i\<close> in
  \<open>[0,5)\<close> at which the gene of the record equals the gene of the query. The candidates
  are the parsed records whose match count is at least \<open>minMatches\<close>, in the order of
  the stream.
\<close>

definition match_count :: "person \<Rightarrow> person \<Rightarrow> nat" where
  "match_count r query =
     length (filter (\<lambda>i. gene (genes r) i = gene (genes query) i) [0..<5])"

definition candidates :: "string \<Rightarrow> person \<Rightarrow> person \<Rightarrow> int \<Rightarrow> person list" where
  "candidates db current query minMatches =
     filter (\<lambda>r. minMatches \<le> int (match_count r query)) (parsed_records db current)"

text \<open>
  Streams of any length, to reach the bounds of the arrays: \<open>unit_text ids\<close> holds one
  record for each identifier of \<open>ids\<close> (three digits each), all with the name \<open>a\<close> and
  the genes \<open>x x x x x\<close>, each preceded by a space; \<open>record_of i\<close> is the record that
  \<^verbatim>\<open>fscanf\<close> reads for the identifier \<open>i\<close>.
\<close>

definition record_text :: "string \<Rightarrow> string" where
  "record_text i = '' a '' @ i @ '' x x x x x''"

definition unit_text :: "string list \<Rightarrow> string" where
  "unit_text ids = concat (map record_text ids)"

definition record_of :: "string \<Rightarrow> person" where
  "record_of i = \<lparr>name = '' a '', ident = i, genes = Genes5 ''x'' ''x'' ''x'' ''x'' ''x''\<rparr>"

definition digits3 :: "string \<Rightarrow> bool" where
  "digits3 i \<longleftrightarrow> length i = 3 \<and> list_all isdigit i"

text \<open>A small database and a query, to illustrate the theorems on the filter.\<close>

definition example_db :: string where
  "example_db = ''Al 1 X X X X X\<newline>Bo 2 X X Y Y Y''"

definition example_query :: person where
  "example_query = \<lparr>name = [], ident = [], genes = Genes5 ''X'' ''X'' ''X'' ''X'' ''X''\<rparr>"

text \<open>
  101 different identifiers: the first 101 of the 125 strings of three digits among
  \<open>0\<close> to \<open>4\<close>.
\<close>

definition ids3 :: "string list" where
  "ids3 = concat (map (\<lambda>a. concat (map (\<lambda>b. map (\<lambda>c. [a, b, c]) ''01234'') ''01234'')) ''01234'')"

definition ids101 :: "string list" where
  "ids101 = take 101 ids3"

text \<open>A record whose name is blank: two spaces before the identifier.\<close>

definition blank_record_text :: string where
  "blank_record_text = ''  1 x x x x x''"

definition blank_record :: person where
  "blank_record = \<lparr>name = ''  '', ident = ''1'', genes = Genes5 ''x'' ''x'' ''x'' ''x'' ''x''\<rparr>"

section \<open>General facts about the merge loop\<close>

lemma strcmp_eq_0_iff: "strcmp a b = 0 \<longleftrightarrow> a = b"
  by (induction a b rule: strcmp.induct) auto

lemma isDuplicate_iff: "isDuplicate i ps \<noteq> 0 \<longleftrightarrow> i \<in> set ps"
  by (induction ps) (auto simp: strcmp_eq_0_iff)

lemma records_written_append:
  "records_written (xs @ ys) = records_written xs @ records_written ys"
  by (induction xs rule: records_written.induct) auto

text \<open>What one iteration that returns normally does to the variables the claims are about.\<close>

lemma merge_body_Inr:
  assumes "merge_body cap st k = Inr st'"
  shows "selected st' = selected st @ [(k, currentPerson (slots st ! k))]"
    and "lastFileIndex st' = Some k"
    and "processedIDs st' =
          (if ident (currentPerson (slots st ! k)) \<in> set (processedIDs st) then processedIDs st
           else processedIDs st @ [ident (currentPerson (slots st ! k))])"
    and "outFile st' = outFile st @
          (if ident (currentPerson (slots st ! k)) \<in> set (processedIDs st) then []
           else if lastFileIndex st \<noteq> Some k \<and> lastFileIndex st \<noteq> None
                then [Put_newline, Put_joined (currentPerson (slots st ! k))]
                else [Put_spaced (currentPerson (slots st ! k))])"
    and "ident (currentPerson (slots st ! k)) \<notin> set (processedIDs st)
           \<Longrightarrow> length (processedIDs st) < cap"
  using assms
  by (auto simp: merge_body_def Let_def isDuplicate_iff split: if_splits prod.splits)

text \<open>A property kept by every iteration holds when the loop ends.\<close>

lemma merge_loop_invariant:
  assumes "merge_loop cap st = Inr st'"
    and "P st"
    and "\<forall>s k s'. P s \<longrightarrow> merge_body cap s k = Inr s' \<longrightarrow> P s'"
  shows "P st'"
  using assms
proof (induction cap st rule: merge_loop.induct)
  case (1 cap st)
  show ?case
  proof (cases "0 < activeFiles st")
    case False
    with 1(2,3) show ?thesis by (simp add: merge_loop.simps [of cap st])
  next
    case active: True
    show ?thesis
    proof (cases "find_smallest (map currentPerson (slots st))")
      case None
      with active 1(2,3) show ?thesis by (simp add: merge_loop.simps [of cap st])
    next
      case (Some k)
      show ?thesis
      proof (cases "merge_body cap st k")
        case (Inl e)
        with active Some 1(2) show ?thesis by (simp add: merge_loop.simps [of cap st])
      next
        case (Inr s1)
        with active Some 1(2) have "merge_loop cap s1 = Inr st'"
          by (simp add: merge_loop.simps [of cap st])
        moreover from 1(3,4) Inr have "P s1" by blast
        ultimately show ?thesis
          using 1(1) [OF active Some Inr] 1(4) by blast
      qed
    qed
  qed
qed

lemma createDatabase_cap_run:
  assumes "createDatabase_cap cap units creatable uninit = Inr st"
  obtains st0 where "merge_loop cap st0 = Inr st"
    and "processedIDs st0 = []" and "outFile st0 = []"
    and "selected st0 = []" and "lastFileIndex st0 = None"
  using assms
  by (auto simp: createDatabase_cap_def Let_def split: if_splits)

lemma first_by_id_snoc:
  "first_by_id seen (xs @ [p]) =
     first_by_id seen xs @ (if ident p \<in> set seen \<union> ident ` set xs then [] else [p])"
  by (induction xs arbitrary: seen) auto

lemma first_by_id_ids:
  "set seen \<union> ident ` set (first_by_id seen xs) = set seen \<union> ident ` set xs"
proof (induction xs arbitrary: seen)
  case Nil
  show ?case by simp
next
  case (Cons a xs)
  show ?case
  proof (cases "ident a \<in> set seen")
    case True
    with Cons [of seen] show ?thesis by auto
  next
    case False
    with Cons [of "ident a # seen"] show ?thesis by auto
  qed
qed


lemma unique_inv_step:
  assumes "unique_inv s" "merge_body cap s k = Inr s'"
  shows "unique_inv s'"
proof -
  note b = merge_body_Inr [OF assms(2)]
  from assms(1) have ids: "set (processedIDs s) = ident ` set (map snd (selected s))"
    using first_by_id_ids [of "[]" "map snd (selected s)"]
    by (simp add: unique_inv_def)
  show ?thesis
  proof (cases "ident (currentPerson (slots s ! k)) \<in> set (processedIDs s)")
    case True
    with assms(1) ids show ?thesis
      by (simp add: unique_inv_def b first_by_id_snoc)
  next
    case False
    with assms(1) ids show ?thesis
      by (simp add: unique_inv_def b first_by_id_snoc records_written_append)
  qed
qed

lemma createDatabase_cap_unique_inv:
  assumes "createDatabase_cap cap units creatable uninit = Inr st"
  shows "unique_inv st"
proof -
  from assms obtain st0 where run: "merge_loop cap st0 = Inr st"
    and init: "processedIDs st0 = []" "outFile st0 = []" "selected st0 = []"
    by (rule createDatabase_cap_run)
  from init have "unique_inv st0" by (simp add: unique_inv_def)
  with run show ?thesis
    by (rule merge_loop_invariant) (blast intro: unique_inv_step)
qed

lemma example_run: "createDatabase example_units True zeroed = Inr example_final"
  by code_simp

lemma iteration_calls_old:
  "k < length sel \<Longrightarrow> iteration_calls (sel @ [x]) k = iteration_calls sel k"
  by (auto simp: iteration_calls_def nth_append split: prod.splits)

lemma iteration_calls_new:
  "iteration_calls (sel @ [(i, p)]) (length sel) =
     (if ident p \<in> set (map (\<lambda>x. ident (snd x)) sel) then []
      else if sel \<noteq> [] \<and> fst (last sel) \<noteq> i then [Put_newline, Put_joined p]
      else [Put_spaced p])"
  by (auto simp: iteration_calls_def nth_append last_conv_nth)

lemma format_inv_step:
  assumes "format_inv s" "merge_body cap s k = Inr s'"
  shows "format_inv s'"
proof -
  note b = merge_body_Inr [OF assms(2)]
  have old: "map (iteration_calls (selected s @ [x])) [0..<length (selected s)]
      = map (iteration_calls (selected s)) [0..<length (selected s)]" for x
    by (rule map_cong) (auto simp: iteration_calls_old)
  from assms(1) show ?thesis
    unfolding format_inv_def b
    by (auto simp: old iteration_calls_new)
qed

section \<open>General facts about the filter and about reading records\<close>

lemma upt_5: "[0..<5] = [0, 1, 2, 3, 4]"
  by (simp add: upt_rec)

lemma countGeneMatches_eq: "countGeneMatches donor patient = int (match_count donor patient)"
  by (simp add: countGeneMatches_def match_count_def upt_5 strcmp_eq_0_iff)

lemma donors_loop_eq:
  "length donors \<le> MAX_PERSONS \<Longrightarrow>
   donors_loop db cur patient m donors =
     (if length donors + length (candidates db cur patient m) \<le> MAX_PERSONS
      then Inr (donors @ candidates db cur patient m) else Inl DonorsOverflow)"
proof (induction db cur patient m donors rule: donors_loop.induct)
  case (1 dbFile current patient min_match donors)
  obtain n cur rest where f: "fscanf_person dbFile current = (n, cur, rest)"
    by (cases "fscanf_person dbFile current")
  show ?case
  proof (cases "n = 7")
    case False
    with f 1(3) show ?thesis
      by (simp add: donors_loop.simps [of dbFile] candidates_def parsed_records.simps [of dbFile])
  next
    case True
    note seven = True
    show ?thesis
    proof (cases "min_match \<le> countGeneMatches cur patient")
      case False
      with f seven 1(2) [OF f [symmetric] refl seven refl False 1(3)] show ?thesis
        by (simp add: donors_loop.simps [of dbFile] candidates_def
            parsed_records.simps [of dbFile] countGeneMatches_eq)
    next
      case True
      show ?thesis
      proof (cases "length donors < MAX_PERSONS")
        case False
        with f seven True 1(3) show ?thesis
          by (simp add: donors_loop.simps [of dbFile] candidates_def
            parsed_records.simps [of dbFile] countGeneMatches_eq)
      next
        case less: True
        then have "length (donors @ [cur]) \<le> MAX_PERSONS" by simp
        with f seven True less 1(1) [OF f [symmetric] refl seven refl True less] show ?thesis
          by (simp add: donors_loop.simps [of dbFile] candidates_def
            parsed_records.simps [of dbFile] countGeneMatches_eq)
      qed
    qed
  qed
qed


lemma isdigit_not_isspace: "isdigit c \<Longrightarrow> \<not> isspace c"
  by (auto simp: isdigit_def isspace_def)

lemma isdigit_not_NUL: "isdigit c \<Longrightarrow> c \<noteq> CHR 0x00"
  by (auto simp: isdigit_def)

lemma char_class_facts:
  "\<not> isdigit (CHR '' '')" "\<not> isdigit (CHR ''a'')" "isspace (CHR '' '')"
  "\<not> isspace (CHR ''a'')" "\<not> isspace (CHR ''x'')"
  by (simp_all add: isdigit_def isspace_def)

lemma unit_text_cases:
  "unit_text ids = [] \<or> (\<exists>r. unit_text ids = CHR '' '' # r)"
  by (cases ids) (simp_all add: unit_text_def record_text_def)

lemma fscanf_record_text:
  assumes "isdigit a" "isdigit b" "isdigit c"
  shows "fscanf_person (record_text [a, b, c] @ unit_text ids) p
         = (7, record_of [a, b, c], unit_text ids)"
proof -
  note d = assms assms [THEN isdigit_not_isspace] assms [THEN isdigit_not_NUL]
  from unit_text_cases [of ids] show ?thesis
  proof
    assume "unit_text ids = []"
    with d show ?thesis
      by (cases "genes p")
         (simp add: fscanf_person_def scan_nondigits_def scan_s_def Let_def cstr_def
            record_text_def record_of_def char_class_facts)
  next
    assume "\<exists>r. unit_text ids = CHR '' '' # r"
    then obtain r where "unit_text ids = CHR '' '' # r" ..
    with d show ?thesis
      by (cases "genes p")
         (simp add: fscanf_person_def scan_nondigits_def scan_s_def Let_def cstr_def
            record_text_def record_of_def char_class_facts)
  qed
qed

lemma digits3_E:
  assumes "digits3 i"
  obtains a b c where "i = [a, b, c]" "isdigit a" "isdigit b" "isdigit c"
proof -
  from assms have "length i = 3" by (simp add: digits3_def)
  then obtain a b c where "i = [a, b, c]"
    by (auto simp: length_Suc_conv numeral_3_eq_3)
  with assms that show ?thesis by (simp add: digits3_def)
qed

lemma parsed_records_unit_text:
  "list_all digits3 ids \<Longrightarrow> parsed_records (unit_text ids) p = map record_of ids"
proof (induction ids arbitrary: p)
  case Nil
  show ?case
    by (simp add: unit_text_def parsed_records.simps [of "[]"] fscanf_person_def
        scan_nondigits_def EOF_def)
next
  case (Cons i ids)
  from Cons(2) have "digits3 i" "list_all digits3 ids" by simp_all
  from \<open>digits3 i\<close> obtain a b c where i: "i = [a, b, c]" "isdigit a" "isdigit b" "isdigit c"
    by (rule digits3_E)
  have "unit_text (i # ids) = record_text [a, b, c] @ unit_text ids"
    by (simp add: unit_text_def i)
  with fscanf_record_text [OF i(2-4), of ids p] Cons(1) [OF \<open>list_all digits3 ids\<close>]
  show ?case
    by (simp add: parsed_records.simps [of "record_text [a, b, c] @ unit_text ids"] i)
qed

lemma parsed_records_same_id:
  "parsed_records (unit_text (replicate n ''000'')) p = replicate n (record_of ''000'')"
proof -
  have "list_all digits3 (replicate n ''000'')"
    by (simp add: list_all_iff digits3_def isdigit_def)
  then have "parsed_records (unit_text (replicate n ''000'')) p
      = map record_of (replicate n ''000'')"
    by (rule parsed_records_unit_text)
  then show ?thesis by simp
qed

lemma getPotentialDonors_eq:
  "getPotentialDonors (Some db) patient m cur =
     (if length (candidates db cur patient m) \<le> MAX_PERSONS
      then Inr (candidates db cur patient m, int (length (candidates db cur patient m)))
      else Inl DonorsOverflow)"
  by (simp add: getPotentialDonors_def donors_loop_eq)

section \<open>General facts about runs on one file and about the size of processedIDs\<close>

lemma find_smallest_single: "name cur \<noteq> [] \<Longrightarrow> find_smallest [cur] = Some 0"
  by (simp add: find_smallest_def smallest_step_def)

lemma merge_loop_inactive: "activeFiles st \<le> 0 \<Longrightarrow> merge_loop cap st = Inr st"
  by (simp add: merge_loop.simps [of cap st])

lemma single_unit_run:
  assumes "parsed_records inp cur = rs"
    and "slots st = [\<lparr>unit_input = inp, currentPerson = cur\<rparr>]"
    and "activeFiles st = 1"
    and "name cur \<noteq> []"
    and "\<forall>r\<in>set rs. name r \<noteq> []"
    and "distinct (ident cur # map ident rs)"
    and "set (processedIDs st) \<inter> set (ident cur # map ident rs) = {}"
  shows "if cap < length (processedIDs st) + 1 + length rs
         then merge_loop cap st = Inl ProcessedIDsOverflow
         else \<exists>st'. merge_loop cap st = Inr st' \<and>
                processedIDs st' = processedIDs st @ ident cur # map ident rs"
  using assms
proof (induction rs arbitrary: inp cur st)
  case Nil
  obtain n p rest where f: "fscanf_person inp cur = (n, p, rest)"
    by (cases "fscanf_person inp cur")
  with Nil(1) have n: "n \<noteq> 7"
    by (auto simp: parsed_records.simps [of inp] split: if_splits)
  have nd: "isDuplicate (ident cur) (processedIDs st) = 0"
    using Nil(7) isDuplicate_iff [of "ident cur" "processedIDs st"] by auto
  show ?case
  proof (cases "cap \<le> length (processedIDs st)")
    case True
    with Nil nd show ?thesis
      by (simp add: merge_loop.simps [of cap st] find_smallest_single merge_body_def Let_def)
  next
    case False
    with Nil nd f n show ?thesis
      by (simp add: merge_loop.simps [of cap st] find_smallest_single merge_body_def Let_def
          merge_loop_inactive)
  qed
next
  case (Cons r rs)
  obtain n p rest where f: "fscanf_person inp cur = (n, p, rest)"
    by (cases "fscanf_person inp cur")
  with Cons(2) have n: "n = 7" and p: "p = r" and rs: "parsed_records rest r = rs"
    by (auto simp: parsed_records.simps [of inp] split: if_splits)
  have nd: "isDuplicate (ident cur) (processedIDs st) = 0"
    using Cons(8) isDuplicate_iff [of "ident cur" "processedIDs st"] by auto
  show ?case
  proof (cases "cap \<le> length (processedIDs st)")
    case True
    with Cons(2-) nd show ?thesis
      by (simp add: merge_loop.simps [of cap st] find_smallest_single merge_body_def Let_def)
  next
    case False
    define st1 where "st1 = \<lparr>slots = [\<lparr>unit_input = rest, currentPerson = r\<rparr>],
        activeFiles = 1, processedIDs = processedIDs st @ [ident cur],
        lastFileIndex = Some 0,
        outFile = (if lastFileIndex st \<noteq> Some 0 \<and> lastFileIndex st \<noteq> None
                   then outFile st @ [Put_newline, Put_joined cur]
                   else outFile st @ [Put_spaced cur]),
        selected = selected st @ [(0, cur)]\<rparr>"
    from False Cons(3-5) nd f n p have step: "merge_loop cap st = merge_loop cap st1"
      by (simp add: merge_loop.simps [of cap st] find_smallest_single merge_body_def Let_def
          st1_def)
    have "if cap < length (processedIDs st1) + 1 + length rs
         then merge_loop cap st1 = Inl ProcessedIDsOverflow
         else \<exists>st'. merge_loop cap st1 = Inr st' \<and>
                processedIDs st' = processedIDs st1 @ ident r # map ident rs"
      using Cons(6-8) by (intro Cons(1) [OF rs]) (auto simp: st1_def)
    moreover have "processedIDs st1 = processedIDs st @ [ident cur]"
      by (simp add: st1_def)
    ultimately show ?thesis
      by (auto simp: step split: if_splits)
  qed
qed


lemma prime_slot_unit_text:
  assumes "digits3 i"
  shows "prime_slot (unit_text (i # ids)) garbage
     = (\<lparr>unit_input = unit_text ids, currentPerson = (record_of i)\<lparr>name := '' a''\<rparr>\<rparr>, True)"
proof -
  from assms obtain a b c where i: "i = [a, b, c]" "isdigit a" "isdigit b" "isdigit c"
    by (rule digits3_E)
  have u: "unit_text ([a, b, c] # ids) = record_text [a, b, c] @ unit_text ids"
    by (simp add: unit_text_def)
  have "cleanName '' a '' = '' a''" by code_simp
  then show ?thesis
    by (simp add: prime_slot_def i u fscanf_record_text [OF i(2-4)] record_of_def)
qed

lemma createDatabase_cap_unit_text:
  assumes "list_all digits3 (i # ids)" "distinct (i # ids)"
  shows "if cap < length (i # ids)
         then createDatabase_cap cap [unit_text (i # ids)] True uninit = Inl ProcessedIDsOverflow
         else \<exists>st'. createDatabase_cap cap [unit_text (i # ids)] True uninit = Inr st' \<and>
                processedIDs st' = i # ids"
proof -
  let ?cur = "(record_of i)\<lparr>name := '' a''\<rparr>"
  let ?st0 = "\<lparr>slots = [\<lparr>unit_input = unit_text ids, currentPerson = ?cur\<rparr>],
       activeFiles = 1, processedIDs = [], lastFileIndex = None, outFile = [], selected = []\<rparr>"
  from assms(1) have d: "digits3 i" "list_all digits3 ids" by simp_all
  have run: "createDatabase_cap cap [unit_text (i # ids)] True uninit = merge_loop cap ?st0"
    by (simp add: createDatabase_cap_def prime_slot_unit_text [OF d(1)])
  have rs: "parsed_records (unit_text ids) ?cur = map record_of ids"
    using d(2) by (rule parsed_records_unit_text)
  have "if cap < length (processedIDs ?st0) + 1 + length (map record_of ids)
         then merge_loop cap ?st0 = Inl ProcessedIDsOverflow
         else \<exists>st'. merge_loop cap ?st0 = Inr st' \<and>
                processedIDs st' = processedIDs ?st0 @ ident ?cur # map ident (map record_of ids)"
    using assms(2)
    by (intro single_unit_run [OF rs]) (auto simp: record_of_def comp_def)
  moreover have "map ident (map record_of ids) = ids" "ident ?cur = i"
    by (simp_all add: record_of_def comp_def)
  ultimately show ?thesis
    by (auto simp: run split: if_splits)
qed

lemma merge_loop_ids_grow:
  assumes "merge_loop cap st = Inr st'"
  shows "length (processedIDs st) \<le> length (processedIDs st')"
proof -
  have "\<forall>s k s'. length (processedIDs st) \<le> length (processedIDs s) \<longrightarrow>
      merge_body cap s k = Inr s' \<longrightarrow> length (processedIDs st) \<le> length (processedIDs s')"
    by (auto simp: merge_body_Inr(3))
  with merge_loop_invariant [of cap st st'
      "\<lambda>s. length (processedIDs st) \<le> length (processedIDs s)", OF assms]
  show ?thesis by simp
qed

lemma merge_loop_ids_bounded:
  assumes "merge_loop cap st = Inr st'" "length (processedIDs st) \<le> cap"
  shows "length (processedIDs st') \<le> cap"
proof -
  have "\<forall>s k s'. length (processedIDs s) \<le> cap \<longrightarrow>
      merge_body cap s k = Inr s' \<longrightarrow> length (processedIDs s') \<le> cap"
    using merge_body_Inr(5) by (fastforce simp: merge_body_Inr(3))
  with assms show ?thesis
    by (rule merge_loop_invariant [where P = "\<lambda>s. length (processedIDs s) \<le> cap"])
qed

lemma merge_body_other_cap:
  assumes "merge_body cap st k = Inr s1"
  shows "merge_body cap2 st k =
     (if ident (currentPerson (slots st ! k)) \<notin> set (processedIDs st) \<and>
         cap2 \<le> length (processedIDs st)
      then Inl ProcessedIDsOverflow else Inr s1)"
  using assms
  by (auto simp: merge_body_def Let_def isDuplicate_iff split: if_splits prod.splits)

lemma merge_loop_other_cap:
  assumes "merge_loop cap st = Inr st'" "length (processedIDs st) \<le> cap2"
  shows "merge_loop cap2 st =
     (if length (processedIDs st') \<le> cap2 then Inr st' else Inl ProcessedIDsOverflow)"
  using assms
proof (induction cap st rule: merge_loop.induct)
  case (1 cap st)
  show ?case
  proof (cases "0 < activeFiles st")
    case False
    then have "merge_loop cap st = Inr st" "merge_loop cap2 st = Inr st"
      by (simp_all add: merge_loop_inactive)
    with 1(2,3) show ?thesis by simp
  next
    case active: True
    show ?thesis
    proof (cases "find_smallest (map currentPerson (slots st))")
      case None
      with active have "merge_loop cap st = Inr st" "merge_loop cap2 st = Inr st"
        by (simp_all add: merge_loop.simps [of _ st])
      with 1(2,3) show ?thesis by simp
    next
      case (Some k)
      show ?thesis
      proof (cases "merge_body cap st k")
        case (Inl e)
        with active Some 1(2) show ?thesis by (simp add: merge_loop.simps [of cap st])
      next
        case (Inr s1)
        with active Some 1(2) have run1: "merge_loop cap s1 = Inr st'"
          by (simp add: merge_loop.simps [of cap st])
        note b = merge_body_Inr [OF Inr]
        define ov where "ov \<longleftrightarrow>
           ident (currentPerson (slots st ! k)) \<notin> set (processedIDs st) \<and>
           cap2 \<le> length (processedIDs st)"
        have mb: "merge_body cap2 st k = (if ov then Inl ProcessedIDsOverflow else Inr s1)"
          unfolding ov_def by (rule merge_body_other_cap [OF Inr])
        show ?thesis
        proof (cases ov)
          case True
          with b(3) have "cap2 < length (processedIDs s1)" by (simp add: ov_def)
          with merge_loop_ids_grow [OF run1] have "\<not> length (processedIDs st') \<le> cap2"
            by simp
          moreover from True active Some mb
          have "merge_loop cap2 st = Inl ProcessedIDsOverflow"
            by (simp add: merge_loop.simps [of cap2 st])
          ultimately show ?thesis by simp
        next
          case False
          with b(3) 1(3) have "length (processedIDs s1) \<le> cap2" by (auto simp: ov_def)
          with 1(1) [OF active Some Inr run1]
          have "merge_loop cap2 s1 =
             (if length (processedIDs st') \<le> cap2 then Inr st' else Inl ProcessedIDsOverflow)" .
          moreover from False active Some mb
          have "merge_loop cap2 st = merge_loop cap2 s1"
            by (simp add: merge_loop.simps [of cap2 st])
          ultimately show ?thesis by simp
        qed
      qed
    qed
  qed
qed

lemma createDatabase_cap_other_cap:
  assumes "createDatabase_cap cap units creatable uninit = Inr st'"
  shows "createDatabase_cap cap2 units creatable uninit =
     (if length (processedIDs st') \<le> cap2 then Inr st' else Inl ProcessedIDsOverflow)"
proof -
  define st0 where "st0 =
     \<lparr>slots = map fst (map (\<lambda>i. prime_slot (units ! i) (uninit i)) [0..<length units]),
      activeFiles = int (length (filter snd
         (map (\<lambda>i. prime_slot (units ! i) (uninit i)) [0..<length units]))),
      processedIDs = [], lastFileIndex = None, outFile = [], selected = []\<rparr>"
  from assms have c: creatable
    by (auto simp: createDatabase_cap_def split: if_splits)
  then have run: "createDatabase_cap n units creatable uninit = merge_loop n st0" for n
    by (simp add: createDatabase_cap_def Let_def st0_def)
  have "length (processedIDs st0) \<le> cap2" by (simp add: st0_def)
  with assms show ?thesis
    unfolding run by (rule merge_loop_other_cap)
qed

lemma createDatabase_cap_ids_bounded:
  assumes "createDatabase_cap cap units creatable uninit = Inr st"
  shows "length (processedIDs st) \<le> cap"
  using assms
  by (auto simp: createDatabase_cap_def Let_def split: if_splits
      dest!: merge_loop_ids_bounded)

lemma ids101_facts:
  "list_all digits3 ids101" "distinct ids101"
  "ids101 = ''000'' # tl ids101" "length ids101 = 101"
  by code_simp+

lemma fscanf_blank_record:
  "fscanf_person (blank_record_text @ unit_text ids) p = (7, blank_record, unit_text ids)"
proof -
  from unit_text_cases [of ids] show ?thesis
  proof
    assume "unit_text ids = []"
    then show ?thesis
      by (cases "genes p")
         (simp add: fscanf_person_def scan_nondigits_def scan_s_def Let_def cstr_def
            blank_record_def blank_record_text_def isdigit_def isspace_def)
  next
    assume "\<exists>r. unit_text ids = CHR '' '' # r"
    then obtain r where "unit_text ids = CHR '' '' # r" ..
    then show ?thesis
      by (cases "genes p")
         (simp add: fscanf_person_def scan_nondigits_def scan_s_def Let_def cstr_def
            blank_record_def blank_record_text_def isdigit_def isspace_def)
  qed
qed

lemma blocked_run:
  "createDatabase_cap cap [blank_record_text @ unit_text ids] True uninit
   = Inr \<lparr>slots = [\<lparr>unit_input = unit_text ids, currentPerson = blank_record\<lparr>name := []\<rparr>\<rparr>],
          activeFiles = 1, processedIDs = [], lastFileIndex = None, outFile = [],
          selected = []\<rparr>"
proof -
  have "cleanName ''  '' = []" by code_simp
  then show ?thesis
    by (simp add: createDatabase_cap_def prime_slot_def fscanf_blank_record
        merge_loop.simps [of cap] find_smallest_def smallest_step_def blank_record_def)
qed

section \<open>General facts about the order of selection\<close>













section \<open>C1: the order of the unified database\<close>

text \<open>
  C1 states that, on input files sorted by name, the records written are in
  non-decreasing order of name. The run below is the example of the specification:
  file 1 holds Alice (111) and Carol (333), file 2 holds Bob (222) and Carol (333), one
  record per line. The first record of a file is compared under its cleaned name, every
  later record under the name as scanned, which starts with the line break that ends
  the line before it (the two record formats of \<^verbatim>\<open>fprintf\<close> hold no line break: the
  lines of the output are separated by these names). A line break sorts before every
  letter, so Carol of file 1 is chosen, and written, before Bob. The names written are
  sorted neither as they are stored nor as they read once cleaned.
\<close>

theorem unify_example_not_sorted:
  "written (createDatabase
      [''Alice 111 X X X X X\<newline>Carol 333 Y Y Y Y Y'',
       ''Bob 222 Z Z Z Z Z\<newline>Carol 333 Y Y Y Y Y''] True zeroed)
   = Inr [\<lparr>name = ''Alice'', ident = ''111'', genes = Genes5 ''X'' ''X'' ''X'' ''X'' ''X''\<rparr>,
          \<lparr>name = ''\<newline>Carol '', ident = ''333'', genes = Genes5 ''Y'' ''Y'' ''Y'' ''Y'' ''Y''\<rparr>,
          \<lparr>name = ''Bob'', ident = ''222'', genes = Genes5 ''Z'' ''Z'' ''Z'' ''Z'' ''Z''\<rparr>]
   \<and> \<not> name_le ''Alice'' ''\<newline>Carol ''
   \<and> \<not> name_le ''Carol'' ''Bob''"
  by code_simp

section \<open>C2: unique identifiers, first seen wins\<close>




section \<open>C3: cleaning of names\<close>

text \<open>
  C3 states that the name is cleaned after every successful parse, so that no record
  written by the merge or returned by the filter has a name with a digit or with trailing
  white space. In the merge only the first record of a file is cleaned: the second record
  of the file below is written with the name it was scanned with, which ends in a space.
  \<open>getPotentialDonors\<close> never calls \<open>cleanName\<close>: read back from a database line, the
  name keeps the padding of its 30 columns.
\<close>

theorem refill_and_filter_names_not_cleaned:
  "written (createDatabase [''Dana 444 X X X X X\<newline>Eve 555 Y Y Y Y Y''] True zeroed)
   = Inr [\<lparr>name = ''Dana'', ident = ''444'', genes = Genes5 ''X'' ''X'' ''X'' ''X'' ''X''\<rparr>,
          \<lparr>name = ''\<newline>Eve '', ident = ''555'', genes = Genes5 ''Y'' ''Y'' ''Y'' ''Y'' ''Y''\<rparr>]
   \<and> cleanName ''\<newline>Eve '' = ''\<newline>Eve''
   \<and> getPotentialDonors
         (Some (call_text (Put_spaced
            \<lparr>name = ''Dana'', ident = ''444'', genes = Genes5 ''X'' ''X'' ''X'' ''X'' ''X''\<rparr>)))
         \<lparr>name = [], ident = [], genes = Genes5 ''X'' ''X'' ''X'' ''X'' ''X''\<rparr> 5 zero_person
       = Inr ([\<lparr>name = ''Dana                          '', ident = ''444'',
                 genes = Genes5 ''X'' ''X'' ''X'' ''X'' ''X''\<rparr>], 1)"
  by code_simp

section \<open>C4: what the filter returns\<close>

text \<open>
  C4 states that for every database stream, query and threshold \<open>getPotentialDonors\<close>
  returns exactly the parsed records whose match count is at least the threshold, in
  the order of the stream, and reports their number through \<open>size\<close>.

  The records are stored in an array of \<open>MAX_PERSONS = 1000\<close> entries obtained from
  \<^verbatim>\<open>malloc\<close>, and \<^verbatim>\<open>donors[donorCount++] = current\<close> is executed without a test of
  \<open>donorCount\<close>. In the database below 1001 records have all five genes equal to those
  of the query. With the threshold 5 all of them are candidates, and the run executes
  the store \<^verbatim>\<open>donors[1000] = current\<close>, outside the array: the model marks that store by
  \<open>DonorsOverflow\<close>; in C the behaviour is undefined from there on, so the function
  does not give the caller an array that holds the 1001 records.
\<close>

theorem filter_1001_full_matches_out_of_bounds:
  "length (candidates (unit_text (replicate 1001 ''000'')) zero_person
             \<lparr>name = [], ident = [], genes = Genes5 ''x'' ''x'' ''x'' ''x'' ''x''\<rparr> 5) = 1001
   \<and> getPotentialDonors (Some (unit_text (replicate 1001 ''000'')))
        \<lparr>name = [], ident = [], genes = Genes5 ''x'' ''x'' ''x'' ''x'' ''x''\<rparr> 5 zero_person
      = Inl DonorsOverflow"
  by (simp add: getPotentialDonors_eq candidates_def parsed_records_same_id
      match_count_def record_of_def upt_5 MAX_PERSONS_def)

section \<open>C5: the size of the candidate list\<close>

text \<open>
  C5 states that the candidate list has no upper bound but memory: whatever the number
  \<open>K\<close> of records that meet the threshold, all \<open>K\<close> are returned. The list is built in
  an array allocated once, for \<open>MAX_PERSONS = 1000\<close> records, which never grows, and
  the store into it is not guarded. With 1001 records that meet the threshold 0, the
  run executes the store of the 1001st record outside the array (marked by
  \<open>DonorsOverflow\<close> in the model; undefined behaviour in C): the memory the caller gets
  has room for 1000 records, not for the 1001 candidates.
\<close>

theorem candidate_list_1001_out_of_bounds:
  "length (candidates (unit_text (replicate 1001 ''000'')) zero_person zero_person 0) = 1001
   \<and> getPotentialDonors (Some (unit_text (replicate 1001 ''000''))) zero_person 0 zero_person
      = Inl DonorsOverflow"
  by (simp add: getPotentialDonors_eq candidates_def parsed_records_same_id MAX_PERSONS_def)

section \<open>C6: completeness of the merge\<close>

text \<open>
  C6 states that every record whose identifier was not met before is written exactly
  once, so that the number of records written is the number of input records minus the
  number of duplicates. The file below holds 101 records with 101 different
  identifiers, none a duplicate. The array \<open>processedIDs\<close> has \<open>MAX_UNITS = 100\<close>
  entries: the run stores the identifier of the 101st record past its end, and does not
  end with the 101 records written.
\<close>

theorem unify_101_records_overflow:
  "length (parsed_records (unit_text ids101) zero_person) = 101 \<and>
   distinct (map ident (parsed_records (unit_text ids101) zero_person)) \<and>
   createDatabase [unit_text ids101] True zeroed = Inl ProcessedIDsOverflow"
proof -
  have "parsed_records (unit_text ids101) zero_person = map record_of ids101"
    using ids101_facts(1) by (rule parsed_records_unit_text)
  moreover have "map ident (map record_of ids101) = ids101"
    by (simp add: record_of_def comp_def)
  moreover have "list_all digits3 (''000'' # tl ids101)" "distinct (''000'' # tl ids101)"
    using ids101_facts by simp_all
  from createDatabase_cap_unit_text [OF this, of MAX_UNITS zeroed] ids101_facts(3,4)
  have "createDatabase [unit_text ids101] True zeroed = Inl ProcessedIDsOverflow"
    by (simp add: createDatabase_def MAX_UNITS_def)
  ultimately show ?thesis
    using ids101_facts(2,4) by simp
qed

section \<open>C7: the size of processedIDs\<close>

text \<open>
  C7 states that the identifiers already written are kept in an array of
  \<open>MAX_UNITS = 100\<close> entries, whatever the number of records, that every new identifier is
  appended without a check, so that the append is in bounds only when at most 100
  identifiers are written, and that for every input with more than 100 different
  identifiers the store past the array is reached.

  The last part fails for an input whose identifiers the merge never writes. The file
  below holds 102 records with 102 different identifiers; the name of the first is
  blank, so it is cleaned to the empty name, the slot of the file counts as empty and
  the loop ends at its \<^verbatim>\<open>break\<close>: nothing is written, nothing is stored in
  \<open>processedIDs\<close>, and the run ends normally -- also with an array of 1000 entries.
\<close>

theorem blocked_file_never_reaches_store:
  "length (parsed_records (blank_record_text @ unit_text ids101) zero_person) = 102 \<and>
   distinct (map ident (parsed_records (blank_record_text @ unit_text ids101) zero_person)) \<and>
   createDatabase [blank_record_text @ unit_text ids101] True zeroed
   = Inr \<lparr>slots = [\<lparr>unit_input = unit_text ids101,
                     currentPerson = \<lparr>name = [], ident = ''1'',
                                      genes = Genes5 ''x'' ''x'' ''x'' ''x'' ''x''\<rparr>\<rparr>],
          activeFiles = 1, processedIDs = [], lastFileIndex = None, outFile = [],
          selected = []\<rparr> \<and>
   calls (createDatabase_cap 1000 [blank_record_text @ unit_text ids101] True zeroed) = Inr []"
proof -
  have "parsed_records (blank_record_text @ unit_text ids101) zero_person
      = blank_record # map record_of ids101"
    using parsed_records_unit_text [OF ids101_facts(1), of blank_record]
    by (simp add: parsed_records.simps [of "blank_record_text @ unit_text ids101"]
        fscanf_blank_record)
  moreover have "map ident (map record_of ids101) = ids101"
    by (simp add: record_of_def comp_def)
  moreover have "''1'' \<notin> set ids101"
    using ids101_facts(1) by (auto simp: list_all_iff digits3_def)
  ultimately show ?thesis
    using ids101_facts(2,4)
    by (simp add: createDatabase_def blocked_run blank_record_def calls_def)
qed

text \<open>
  C7 as amended: the identifiers already written are kept in an array of
  \<open>MAX_UNITS = 100\<close> entries, whatever the number of records, and every new identifier
  is appended without a check. So a run that ends normally has stored the identifier of
  every record it wrote and wrote at most 100 records; and for every input on which the
  merge writes more than 100 records with different identifiers when the array is
  larger (of any size \<open>cap\<close>), the run of the program reaches the store past the end of
  the array.
\<close>

theorem processedIDs_capacity:
  "MAX_UNITS = 100 \<and>
   (createDatabase units creatable uninit = Inr st \<longrightarrow>
      processedIDs st = map ident (records_written (outFile st)) \<and>
      length (records_written (outFile st)) \<le> 100) \<and>
   (createDatabase_cap cap units creatable uninit = Inr st' \<and>
      100 < length (records_written (outFile st')) \<longrightarrow>
      createDatabase units creatable uninit = Inl ProcessedIDsOverflow)"
proof (intro conjI impI)
  show "MAX_UNITS = 100" by (simp add: MAX_UNITS_def)
next
  assume r: "createDatabase units creatable uninit = Inr st"
  then have u: "unique_inv st"
    unfolding createDatabase_def by (rule createDatabase_cap_unique_inv)
  then show "processedIDs st = map ident (records_written (outFile st))"
    by (simp add: unique_inv_def)
  from r have "length (processedIDs st) \<le> MAX_UNITS"
    unfolding createDatabase_def by (rule createDatabase_cap_ids_bounded)
  with u show "length (records_written (outFile st)) \<le> 100"
    by (simp add: unique_inv_def MAX_UNITS_def)
next
  assume a: "createDatabase_cap cap units creatable uninit = Inr st' \<and>
      100 < length (records_written (outFile st'))"
  then have "unique_inv st'" by (auto dest: createDatabase_cap_unique_inv)
  with a have "\<not> length (processedIDs st') \<le> MAX_UNITS"
    by (simp add: unique_inv_def MAX_UNITS_def)
  with a show "createDatabase units creatable uninit = Inl ProcessedIDsOverflow"
    by (simp add: createDatabase_def createDatabase_cap_other_cap [of cap units creatable uninit st'])
qed

theorem processedIDs_capacity_witness:
  "createDatabase example_units True zeroed = Inr example_final \<and>
   length (records_written (outFile example_final)) \<le> 100 \<and>
   (\<exists>st'. createDatabase_cap 101 [unit_text ids101] True zeroed = Inr st' \<and>
          100 < length (records_written (outFile st'))) \<and>
   createDatabase [unit_text ids101] True zeroed = Inl ProcessedIDsOverflow"
proof -
  have "list_all digits3 (''000'' # tl ids101)" "distinct (''000'' # tl ids101)"
    using ids101_facts by simp_all
  from createDatabase_cap_unit_text [OF this, of 101 zeroed] ids101_facts(3,4)
  obtain st' where run: "createDatabase_cap 101 [unit_text ids101] True zeroed = Inr st'"
    and ids: "processedIDs st' = ids101"
    by auto
  from run have "unique_inv st'" by (rule createDatabase_cap_unique_inv)
  with ids ids101_facts(4) have "length (records_written (outFile st')) = 101"
    by (metis length_map unique_inv_def)
  then have big: "createDatabase_cap 101 [unit_text ids101] True zeroed = Inr st' \<and>
      100 < length (records_written (outFile st'))"
    using run by simp
  from processedIDs_capacity [of example_units True zeroed example_final]
    processedIDs_capacity [of "[unit_text ids101]" True zeroed _ 101 st']
    example_run big
  show ?thesis by blast
qed

section \<open>C8: the two formats of a record\<close>

text \<open>
  C8 states that the first record written for each run of records of one file has no
  space between the name and the identifier, and that the later records of the run have
  one. The very first record written is the first of its run, and is written with the
  space:
\<close>

theorem first_record_written_with_space:
  "calls (createDatabase [''Alice 111 X X X X X''] True zeroed)
   = Inr [Put_spaced \<lparr>name = ''Alice'', ident = ''111'',
                      genes = Genes5 ''X'' ''X'' ''X'' ''X'' ''X''\<rparr>]
   \<and> take 40 (call_text (Put_spaced \<lparr>name = ''Alice'', ident = ''111'',
                      genes = Genes5 ''X'' ''X'' ''X'' ''X'' ''X''\<rparr>))
     = ''Alice                          111      ''"
  by code_simp

text \<open>
  C8 as amended: in every run that ends normally, a record is written without the
  separating space (and after a line break) exactly when the iteration that writes it
  chose another file than the iteration before it; the record of the first iteration,
  and a record of the same file as the iteration before -- also when that iteration
  wrote nothing, its record being a duplicate -- is written with the separating space.
  An iteration whose record has an identifier chosen before writes nothing.
\<close>

theorem output_follows_iterations:
  "createDatabase units creatable uninit = Inr st \<Longrightarrow>
     outFile st = concat (map (iteration_calls (selected st)) [0..<length (selected st)])"
proof -
  assume "createDatabase units creatable uninit = Inr st"
  then obtain st0 where run: "merge_loop MAX_UNITS st0 = Inr st"
    and init: "processedIDs st0 = []" "outFile st0 = []" "selected st0 = []"
      "lastFileIndex st0 = None"
    unfolding createDatabase_def by (rule createDatabase_cap_run)
  from init have "format_inv st0" by (simp add: format_inv_def)
  with run have "format_inv st"
    by (rule merge_loop_invariant) (blast intro: format_inv_step)
  then show ?thesis by (simp add: format_inv_def)
qed

theorem output_follows_iterations_witness:
  "createDatabase example_units True zeroed = Inr example_final \<and>
   outFile example_final =
     concat (map (iteration_calls (selected example_final))
                 [0..<length (selected example_final)])"
  using output_follows_iterations [OF example_run] example_run
  by blast

section \<open>C9: the threshold is monotone\<close>

text \<open>
  C9: for the same database and the same query, when \<open>min_match1 < min_match2\<close> the
  candidates returned for \<open>min_match2\<close> are among those returned for \<open>min_match1\<close>.
  When the run for the smaller threshold returns a list, so does the run for the larger
  one, and its records all belong to the first list.
\<close>

theorem threshold_monotone:
  assumes "min_match1 < min_match2"
    and "getPotentialDonors database patient min_match1 current = Inr (donors1, size1)"
  shows "\<exists>donors2 size2.
           getPotentialDonors database patient min_match2 current = Inr (donors2, size2) \<and>
           set donors2 \<subseteq> set donors1"
proof -
  from assms(2) obtain db where db: "database = Some db"
    by (cases database) (simp_all add: getPotentialDonors_def)
  let ?c1 = "candidates db current patient min_match1"
  let ?c2 = "candidates db current patient min_match2"
  from assms(2) db have d1: "donors1 = ?c1" and l1: "length ?c1 \<le> MAX_PERSONS"
    by (auto simp: getPotentialDonors_eq split: if_splits)
  from assms(1) have "?c2 = filter (\<lambda>r. min_match2 \<le> int (match_count r patient)) ?c1"
    by (auto simp: candidates_def intro: filter_cong)
  then have sub: "set ?c2 \<subseteq> set ?c1" and "length ?c2 \<le> length ?c1"
    by (auto simp del: filter_filter intro: order_trans [OF eq_refl length_filter_le])
  with l1 have "length ?c2 \<le> MAX_PERSONS" by simp
  then have "getPotentialDonors database patient min_match2 current
      = Inr (?c2, int (length ?c2))"
    by (simp add: getPotentialDonors_eq db)
  with sub d1 show ?thesis by blast
qed

theorem threshold_monotone_witness:
  "(2::int) < 5 \<and>
   getPotentialDonors (Some example_db) example_query 2 zero_person
     = Inr ([\<lparr>name = ''Al '', ident = ''1'', genes = Genes5 ''X'' ''X'' ''X'' ''X'' ''X''\<rparr>,
             \<lparr>name = ''\<newline>Bo '', ident = ''2'', genes = Genes5 ''X'' ''X'' ''Y'' ''Y'' ''Y''\<rparr>], 2) \<and>
   (\<exists>donors2 size2.
      getPotentialDonors (Some example_db) example_query 5 zero_person = Inr (donors2, size2) \<and>
      set donors2 \<subseteq>
        set [\<lparr>name = ''Al '', ident = ''1'', genes = Genes5 ''X'' ''X'' ''X'' ''X'' ''X''\<rparr>,
             \<lparr>name = ''\<newline>Bo '', ident = ''2'', genes = Genes5 ''X'' ''X'' ''Y'' ''Y'' ''Y''\<rparr>])"
proof -
  have lt: "(2::int) < 5" by simp
  have r: "getPotentialDonors (Some example_db) example_query 2 zero_person
     = Inr ([\<lparr>name = ''Al '', ident = ''1'', genes = Genes5 ''X'' ''X'' ''X'' ''X'' ''X''\<rparr>,
             \<lparr>name = ''\<newline>Bo '', ident = ''2'', genes = Genes5 ''X'' ''X'' ''Y'' ''Y'' ''Y''\<rparr>], 2)"
    by code_simp
  from threshold_monotone [OF lt r] lt r show ?thesis by blast
qed

section \<open>C10: a record whose name is blank\<close>

text \<open>
  C10 states that a parsed record whose name has no non-space character before its
  first digit is cleaned to the empty name, is never written, and blocks its file. The
  second record of the file below has such a name (a line break and a space). It is read
  by the loop, where a successful \<^verbatim>\<open>fscanf\<close> is not followed by \<open>cleanName\<close>: the
  name stays non-empty and the record is written. (When the blank name is that of the
  first record of a file, which is cleaned, the run does what C10 says: in the second run
  below nothing of file 1 is written, not even Bob.)
\<close>

theorem blank_name_record_is_written:
  "written (createDatabase [''Al 1 x x x x x\<newline> 2 y y y y y''] True zeroed)
   = Inr [\<lparr>name = ''Al'', ident = ''1'', genes = Genes5 ''x'' ''x'' ''x'' ''x'' ''x''\<rparr>,
          \<lparr>name = ''\<newline> '', ident = ''2'', genes = Genes5 ''y'' ''y'' ''y'' ''y'' ''y''\<rparr>]
   \<and> cleanName ''\<newline> '' = []
   \<and> written (createDatabase
         [''  1 x x x x x\<newline>Bob 2 y y y y y'', ''Cy 3 z z z z z''] True zeroed)
     = Inr [\<lparr>name = ''Cy'', ident = ''3'', genes = Genes5 ''z'' ''z'' ''z'' ''z'' ''z''\<rparr>]"
  by code_simp

end
